theory Spec2Isabelle
  imports Main
begin

section \<open>Python strings\<close>

text \<open>
  A Python \<open>str\<close> is modelled as a \<open>string\<close>, each \<open>char\<close> read as the code point of the
  same number (0 to 255). On these code points the functions below agree with CPython 3:
  \<open>str.isspace\<close>, \<open>str.lower\<close>, \<open>str.strip()\<close>, \<open>str.split()\<close>, \<open>str.split('\n')\<close>,
  \<open>str.splitlines()\<close>, the operator \<open>in\<close> on strings, and the class \<open>\w\<close> of \<open>re\<close>.
\<close>

definition nl :: char where
  "nl = CHR 0x0A"

definition in_range :: "nat \<Rightarrow> nat \<Rightarrow> char \<Rightarrow> bool" where
  "in_range lo hi c = (lo \<le> of_char c \<and> of_char c \<le> hi)"

definition isspace :: "char \<Rightarrow> bool" where
  "isspace c = (c \<in> {CHR 0x09, CHR 0x0A, CHR 0x0B, CHR 0x0C, CHR 0x0D, CHR 0x1C, CHR 0x1D,
                      CHR 0x1E, CHR 0x1F, CHR 0x20, CHR 0x85, CHR 0xA0})"

definition is_upper :: "char \<Rightarrow> bool" where
  "is_upper c = (in_range 0x41 0x5A c \<or> in_range 0xC0 0xD6 c \<or> in_range 0xD8 0xDE c)"

text \<open>
  Lowering a cased character adds 32 to its code point; bit 5 is clear in each of the three
  upper-case ranges, so adding 32 sets that bit.
\<close>

definition lower_char :: "char \<Rightarrow> char" where
  "lower_char c =
     (if is_upper c
      then Char (digit0 c) (digit1 c) (digit2 c) (digit3 c) (digit4 c) True (digit6 c) (digit7 c)
      else c)"

definition lower :: "string \<Rightarrow> string" where
  "lower s = map lower_char s"

definition strip :: "string \<Rightarrow> string" where
  "strip s = rev (dropWhile isspace (rev (dropWhile isspace s)))"

text \<open>\<open>s.split()\<close>: the maximal runs of non-whitespace; \<open>cur\<close> is the current run, reversed.\<close>

fun split_ws_run :: "string \<Rightarrow> string \<Rightarrow> string list" where
  "split_ws_run cur [] = (if cur = [] then [] else [rev cur])"
| "split_ws_run cur (c # cs) =
     (if isspace c then (if cur = [] then split_ws_run [] cs else rev cur # split_ws_run [] cs)
      else split_ws_run (c # cur) cs)"

definition split_ws :: "string \<Rightarrow> string list" where
  "split_ws s = split_ws_run [] s"

text \<open>\<open>s.split('\n')\<close>: the pieces between line feeds; always at least one piece.\<close>

fun split_nl_run :: "string \<Rightarrow> string \<Rightarrow> string list" where
  "split_nl_run cur [] = [rev cur]"
| "split_nl_run cur (c # cs) =
     (if c = nl then rev cur # split_nl_run [] cs else split_nl_run (c # cur) cs)"

definition split_nl :: "string \<Rightarrow> string list" where
  "split_nl s = split_nl_run [] s"

text \<open>
  \<open>s.splitlines()\<close>: a line ends at a line boundary, a carriage return followed by a line
  feed counting as one boundary; no empty last line.
\<close>

definition linebreak :: "char \<Rightarrow> bool" where
  "linebreak c = (c \<in> {CHR 0x0A, CHR 0x0B, CHR 0x0C, CHR 0x0D, CHR 0x1C, CHR 0x1D, CHR 0x1E,
                        CHR 0x85})"

fun splitlines_run :: "string \<Rightarrow> bool \<Rightarrow> string \<Rightarrow> string list" where
  "splitlines_run cur after_cr [] = (if cur = [] then [] else [rev cur])"
| "splitlines_run cur after_cr (c # cs) =
     (if after_cr \<and> c = CHR 0x0A then splitlines_run cur False cs
      else if linebreak c then rev cur # splitlines_run [] (c = CHR 0x0D) cs
      else splitlines_run (c # cur) False cs)"

definition splitlines :: "string \<Rightarrow> string list" where
  "splitlines s = splitlines_run [] False s"

text \<open>\<open>sub in s\<close>: \<open>sub\<close> occurs in \<open>s\<close> as a contiguous piece.\<close>

fun starts_with :: "string \<Rightarrow> string \<Rightarrow> bool" where
  "starts_with [] s = True"
| "starts_with (p # ps) [] = False"
| "starts_with (p # ps) (c # cs) = (p = c \<and> starts_with ps cs)"

fun contains :: "string \<Rightarrow> string \<Rightarrow> bool" where
  "contains sub [] = (sub = [])"
| "contains sub (c # cs) = (starts_with sub (c # cs) \<or> contains sub cs)"

definition word_char :: "char \<Rightarrow> bool" where
  "word_char c =
     (in_range 0x30 0x39 c \<or> in_range 0x41 0x5A c \<or> c = CHR 0x5F \<or> in_range 0x61 0x7A c \<or>
      c = CHR 0xAA \<or> in_range 0xB2 0xB3 c \<or> c = CHR 0xB5 \<or> in_range 0xB9 0xBA c \<or>
      in_range 0xBC 0xBE c \<or> in_range 0xC0 0xD6 c \<or> in_range 0xD8 0xF6 c \<or>
      in_range 0xF8 0xFF c)"

text \<open>\<open>str(i)\<close> of an integer: its decimal digits, with a minus sign when negative.\<close>

fun str_nat :: "nat \<Rightarrow> string" where
  "str_nat n =
     (if n < 10 then [''0123456789'' ! n]
      else str_nat (n div 10) @ [''0123456789'' ! (n mod 10)])"

declare str_nat.simps [simp del]

definition str_int :: "int \<Rightarrow> string" where
  "str_int i = (if i < 0 then ''-'' @ str_nat (nat (- i)) else str_nat (nat i))"

section \<open>The world outside the program\<close>

text \<open>
  \<open>exn\<close> is a raised Python exception: \<open>Err msg\<close> any \<open>Exception\<close> raised by a call into
  the outside world (a process that cannot be launched, a file that cannot be opened, a
  failed SMTP session), \<open>Unpack n\<close> the \<open>ValueError\<close> of \<open>name, typ = line.split()\<close> on a line
  of \<open>n\<close> fields, \<open>EOFError\<close> the one of \<open>input()\<close> at the end of standard input.
\<close>

datatype exn = Err string | Unpack nat | EOFError

text \<open>The \<open>CompletedProcess\<close> of \<open>subprocess.run\<close>.\<close>

record proc =
  returncode :: int
  stdout :: string
  stderr :: string

text \<open>
  What a run does to the outside, in order: \<open>Ran argv\<close> a call of \<open>subprocess.run\<close>,
  \<open>Print s\<close> a \<open>print\<close>, \<open>Diag s e\<close> the \<open>print(f"s{e}")\<close> of an exception handler,
  \<open>OpenFile path\<close> the \<open>open\<close> of the log file, \<open>Smtp subject body\<close> a call of \<open>send_email\<close>,
  \<open>Input prompt\<close> a call of \<open>input\<close>.
\<close>

datatype event =
    Ran "string list"
  | Print string
  | Diag string exn
  | OpenFile string
  | Smtp string string
  | Input string

text \<open>
  The outside world answers each call; its answer may depend on everything that happened
  before (the history), so that a mount state can change between two queries.
  \<open>config_present\<close>: \<open>import config\<close> succeeds; \<open>LOG_FILE\<close>: \<open>config.LOG_FILE\<close>;
  \<open>exec\<close>: \<open>subprocess.run\<close>; \<open>readlines\<close>: \<open>open(path).readlines()\<close>;
  \<open>smtp\<close>: the body of \<open>send_email\<close>, \<open>None\<close> when nothing is raised.
\<close>

record world =
  config_present :: bool
  LOG_FILE :: "string option"
  exec :: "event list \<Rightarrow> string list \<Rightarrow> exn + proc"
  readlines :: "event list \<Rightarrow> string \<Rightarrow> exn + string list"
  smtp :: "event list \<Rightarrow> string \<Rightarrow> string \<Rightarrow> exn option"

section \<open>The repair of one partition\<close>

text \<open>
  Every function takes the history \<open>h\<close> so far and returns its result with the events it
  adds to the history.
\<close>

definition is_mounted :: "world \<Rightarrow> string \<Rightarrow> event list \<Rightarrow> bool \<times> event list" where
  "is_mounted w device h =
     (case exec w h [''mountpoint'', ''-q'', device] of
        Inr result \<Rightarrow> (returncode result = 0, [Ran [''mountpoint'', ''-q'', device]])
      | Inl e \<Rightarrow>
          (False, [Ran [''mountpoint'', ''-q'', device],
                   Diag (''Error checking mountpoint for '' @ device @ '': '') e]))"

text \<open>Lines 115 to 126 of \<open>repair_filesystem\<close>: the run of \<open>fsck\<close>, inside the \<open>try\<close>.\<close>

definition run_fsck :: "world \<Rightarrow> string \<Rightarrow> event list \<Rightarrow> bool \<times> event list" where
  "run_fsck w device h =
     (let es = [Print (''Running fsck on '' @ device @ ''...''), Ran [''fsck'', ''-y'', device]]
      in case exec w (h @ [Print (''Running fsck on '' @ device @ ''...'')])
                [''fsck'', ''-y'', device] of
           Inl e \<Rightarrow> (False, es @ [Diag (''Error running fsck on '' @ device @ '': '') e])
         | Inr result \<Rightarrow>
             if returncode result = 0
             then (True, es @ [Print (stdout result),
                     Print (''Filesystem on '' @ device @
                            '' repaired successfully or no issues found.'')])
             else (False, es @ [Print (stdout result),
                     Print (''fsck returned exit code '' @ str_int (returncode result) @
                            ''. Please review output.'')]))"

definition repair_filesystem :: "world \<Rightarrow> string \<Rightarrow> event list \<Rightarrow> bool \<times> event list" where
  "repair_filesystem w device h =
     (let (mounted, es1) = is_mounted w device h in
      if mounted then
        (let es2 = es1 @ [Print (device @ '' is currently mounted. Attempting to unmount...'')]
         in case exec w (h @ es2) [''umount'', device] of
              Inl e \<Rightarrow>
                (False, es2 @ [Ran [''umount'', device],
                               Diag (''Error running fsck on '' @ device @ '': '') e])
            | Inr umount_result \<Rightarrow>
                if returncode umount_result \<noteq> 0
                then (False, es2 @ [Ran [''umount'', device],
                        Print (''Failed to unmount '' @ device @ '': '' @
                               strip (stderr umount_result)),
                        Print ''Skipping repair for this partition.''])
                else
                  (let es3 = es2 @ [Ran [''umount'', device],
                                    Print (''Successfully unmounted '' @ device @ ''.'')];
                       (ok, es4) = run_fsck w device (h @ es3)
                   in (ok, es3 @ es4)))
      else
        (let es2 = es1 @ [Print (device @ '' is not mounted. Proceeding with repair.'')];
             (ok, es3) = run_fsck w device (h @ es2)
         in (ok, es2 @ es3)))"

section \<open>The inventory of disks and partitions\<close>

text \<open>
  The loop over the rows of \<open>lsblk\<close>, shared by \<open>get_disks\<close> (\<open>kind\<close> is \<open>disk\<close>) and
  \<open>get_partitions\<close> (\<open>part\<close>). \<open>name, typ = line.split()\<close> raises unless the line has
  exactly two fields, and the exception leaves the loop.
\<close>

fun scan_rows :: "string \<Rightarrow> string list \<Rightarrow> string list \<Rightarrow> exn + string list" where
  "scan_rows kind [] found = Inr found"
| "scan_rows kind (line # lines) found =
     (let fields = split_ws line in
      if length fields \<noteq> 2 then Inl (Unpack (length fields))
      else scan_rows kind lines
             (if fields ! 1 = kind then found @ [''/dev/'' @ fields ! 0] else found))"

definition get_disks :: "world \<Rightarrow> event list \<Rightarrow> string list \<times> event list" where
  "get_disks w h =
     (case exec w h [''lsblk'', ''-dn'', ''-o'', ''NAME,TYPE''] of
        Inl e \<Rightarrow>
          ([], [Ran [''lsblk'', ''-dn'', ''-o'', ''NAME,TYPE''], Diag ''Error getting disks: '' e])
      | Inr result \<Rightarrow>
          (case scan_rows ''disk'' (split_nl (strip (stdout result))) [] of
             Inl e \<Rightarrow>
               ([], [Ran [''lsblk'', ''-dn'', ''-o'', ''NAME,TYPE''],
                     Diag ''Error getting disks: '' e])
           | Inr disks \<Rightarrow> (disks, [Ran [''lsblk'', ''-dn'', ''-o'', ''NAME,TYPE'']])))"

definition get_partitions :: "world \<Rightarrow> string \<Rightarrow> event list \<Rightarrow> string list \<times> event list" where
  "get_partitions w disk h =
     (case exec w h [''lsblk'', ''-ln'', ''-o'', ''NAME,TYPE'', disk] of
        Inl e \<Rightarrow>
          ([], [Ran [''lsblk'', ''-ln'', ''-o'', ''NAME,TYPE'', disk],
                Diag (''Error getting partitions for '' @ disk @ '': '') e])
      | Inr result \<Rightarrow>
          (case scan_rows ''part'' (split_nl (strip (stdout result))) [] of
             Inl e \<Rightarrow>
               ([], [Ran [''lsblk'', ''-ln'', ''-o'', ''NAME,TYPE'', disk],
                     Diag (''Error getting partitions for '' @ disk @ '': '') e])
           | Inr partitions \<Rightarrow>
               (partitions, [Ran [''lsblk'', ''-ln'', ''-o'', ''NAME,TYPE'', disk]])))"

section \<open>The health of a disk\<close>

definition smart_prefix :: string where
  "smart_prefix = ''SMART overall-health self-assessment test result: ''"

text \<open>
  \<open>re.search(r'SMART overall-health self-assessment test result: (\w+)', output)\<close>: the
  leftmost place where the text is followed by a word character; group 1 is the longest
  run of word characters there.
\<close>

fun re_search :: "string \<Rightarrow> string option" where
  "re_search [] = None"
| "re_search (c # cs) =
     (let token = takeWhile word_char (drop (length smart_prefix) (c # cs)) in
      if starts_with smart_prefix (c # cs) \<and> token \<noteq> [] then Some token
      else re_search cs)"

definition check_smart_status :: "world \<Rightarrow> string \<Rightarrow> event list \<Rightarrow> string \<times> event list" where
  "check_smart_status w disk h =
     (case exec w h [''smartctl'', ''-H'', disk] of
        Inl e \<Rightarrow>
          (''ERROR'', [Ran [''smartctl'', ''-H'', disk],
                       Diag (''Error checking SMART status for '' @ disk @ '': '') e])
      | Inr result \<Rightarrow>
          (case re_search (stdout result) of
             Some token \<Rightarrow> (token, [Ran [''smartctl'', ''-H'', disk]])
           | None \<Rightarrow> (''UNKNOWN'', [Ran [''smartctl'', ''-H'', disk]])))"

section \<open>The scan of the logs\<close>

definition error_keywords :: "string list" where
  "error_keywords =
     [''I/O error'', ''ata_error'', ''fail'', ''error'', ''unresponsive'', ''offline'', ''faulty'']"

text \<open>\<open>any(keyword.lower() in line.lower() for keyword in error_keywords)\<close>\<close>

definition is_error_line :: "string \<Rightarrow> bool" where
  "is_error_line line = list_ex (\<lambda>keyword. contains (lower keyword) (lower line)) error_keywords"

fun collect_errors :: "string list \<Rightarrow> string list \<Rightarrow> string list" where
  "collect_errors [] errors = errors"
| "collect_errors (line # logs) errors =
     collect_errors logs (if is_error_line line then errors @ [strip line] else errors)"

definition journal_argv :: "string list" where
  "journal_argv = [''journalctl'', ''-k'', ''--since'', ''1 hour ago'']"

text \<open>
  Lines 57 to 62 of \<open>parse_log_for_errors\<close>: the lines of the log, from the file when
  \<open>config.LOG_FILE\<close> is true (neither \<open>None\<close> nor empty), from the journal otherwise.
\<close>

definition read_logs :: "world \<Rightarrow> event list \<Rightarrow> (exn + string list) \<times> event list" where
  "read_logs w h =
     (if LOG_FILE w \<noteq> None \<and> LOG_FILE w \<noteq> Some []
      then (readlines w h (the (LOG_FILE w)), [OpenFile (the (LOG_FILE w))])
      else (case exec w h journal_argv of
              Inl e \<Rightarrow> (Inl e, [Ran journal_argv])
            | Inr result \<Rightarrow> (Inr (splitlines (stdout result)), [Ran journal_argv])))"

definition parse_log_for_errors :: "world \<Rightarrow> event list \<Rightarrow> string list \<times> event list" where
  "parse_log_for_errors w h =
     (case read_logs w h of
        (Inl e, es) \<Rightarrow> ([], es @ [Diag ''Error parsing logs: '' e])
      | (Inr logs, es) \<Rightarrow> (collect_errors logs [], es))"

section \<open>The alert\<close>

definition send_email :: "world \<Rightarrow> string \<Rightarrow> string \<Rightarrow> event list \<Rightarrow> event list" where
  "send_email w subject body h =
     (case smtp w h subject body of
        None \<Rightarrow> [Smtp subject body, Print ''Alert email sent.'']
      | Some e \<Rightarrow> [Smtp subject body, Diag ''Failed to send email: '' e])"

text \<open>\<open>for x in xs: body += f" - {x}\n"\<close>\<close>

fun add_items :: "string \<Rightarrow> string list \<Rightarrow> string" where
  "add_items body [] = body"
| "add_items body (x # xs) = add_items (body @ '' - '' @ x @ [nl]) xs"

definition alert_subject :: string where
  "alert_subject = ''Disk Health Alert on Red Hat System''"

text \<open>Lines 174 to 183 of \<open>main\<close>.\<close>

definition alert_body :: "string list \<Rightarrow> string list \<Rightarrow> string" where
  "alert_body failed_disks log_errors =
     (let body0 = ''The following disk issues were detected:'' @ [nl, nl];
          body1 = (if failed_disks \<noteq> []
                   then add_items (body0 @ ''Failed or failing disks (SMART):'' @ [nl])
                          failed_disks @ [nl]
                   else body0)
      in if log_errors \<noteq> []
         then add_items (body1 @ ''Disk-related errors from system logs:'' @ [nl]) log_errors
         else body1)"

section \<open>The prompted repair\<close>

text \<open>
  Standard input is the list of the lines still to be read; \<open>input()\<close> takes the first, and
  raises \<open>EOFError\<close> when none is left. Nothing in the program catches that exception, so
  each function below returns \<open>Some e\<close> when \<open>e\<close> leaves it, with the lines left and the
  events added. A standard input that never ends is outside this model.
\<close>

definition repair_question :: "string \<Rightarrow> string" where
  "repair_question part = ''Do you want to run fsck repair on '' @ part @ ''? (yes/no): ''"

text \<open>The \<open>while True\<close> loop of \<open>prompt_repair\<close>, for one partition.\<close>

fun ask_repair ::
  "world \<Rightarrow> string \<Rightarrow> string list \<Rightarrow> event list \<Rightarrow> exn option \<times> string list \<times> event list"
where
  "ask_repair w part [] h = (Some EOFError, [], [Input (repair_question part)])"
| "ask_repair w part (reply # stdin) h =
     (let ans = lower (strip reply) in
      if ans = ''yes'' \<or> ans = ''y''
      then (None, stdin,
            Input (repair_question part) #
            snd (repair_filesystem w part (h @ [Input (repair_question part)])))
      else if ans = ''no'' \<or> ans = ''n''
      then (None, stdin,
            [Input (repair_question part), Print (''Skipping repair on '' @ part @ ''.'')])
      else
        (let es = [Input (repair_question part),
                   Print (''Please answer '' @ [CHR 0x27] @ ''yes'' @ [CHR 0x27] @ '' or '' @
                          [CHR 0x27] @ ''no'' @ [CHR 0x27] @ ''.'')];
             (raised, stdin', es') = ask_repair w part stdin (h @ es)
         in (raised, stdin', es @ es')))"

text \<open>The loop \<open>for part in partitions\<close>.\<close>

fun repair_partitions ::
  "world \<Rightarrow> string list \<Rightarrow> string list \<Rightarrow> event list
     \<Rightarrow> exn option \<times> string list \<times> event list"
where
  "repair_partitions w [] stdin h = (None, stdin, [])"
| "repair_partitions w (part # parts) stdin h =
     (let (mounted, es1) = is_mounted w part h;
          es2 = es1 @ [Print (''Partition '' @ part @ '' is '' @
                              (if mounted then ''mounted'' else ''unmounted'') @ ''.'')];
          (raised, stdin1, es3) = ask_repair w part stdin (h @ es2)
      in case raised of
           Some e \<Rightarrow> (Some e, stdin1, es2 @ es3)
         | None \<Rightarrow>
             (let (raised', stdin2, es4) = repair_partitions w parts stdin1 (h @ es2 @ es3)
              in (raised', stdin2, es2 @ es3 @ es4)))"

fun prompt_repair ::
  "world \<Rightarrow> string list \<Rightarrow> string list \<Rightarrow> event list
     \<Rightarrow> exn option \<times> string list \<times> event list"
where
  "prompt_repair w [] stdin h = (None, stdin, [])"
| "prompt_repair w (disk # disks) stdin h =
     (let es1 = [Print (nl # ''Disk '' @ disk @
                        '' has issues. Checking partitions for repair...'')];
          (partitions, es2) = get_partitions w disk (h @ es1)
      in if partitions = []
         then (let es3 = es1 @ es2 @ [Print (''No partitions found on '' @ disk @ ''.'')];
                   (raised, stdin', es4) = prompt_repair w disks stdin (h @ es3)
               in (raised, stdin', es3 @ es4))
         else (let (raised, stdin1, es3) = repair_partitions w partitions stdin (h @ es1 @ es2)
               in case raised of
                    Some e \<Rightarrow> (Some e, stdin1, es1 @ es2 @ es3)
                  | None \<Rightarrow>
                      (let (raised', stdin2, es4) =
                             prompt_repair w disks stdin1 (h @ es1 @ es2 @ es3)
                       in (raised', stdin2, es1 @ es2 @ es3 @ es4))))"

section \<open>The run\<close>

text \<open>Lines 159 to 164 of \<open>main\<close>: the SMART status of each disk, and the failed disks.\<close>

fun classify_disks :: "world \<Rightarrow> string list \<Rightarrow> event list \<Rightarrow> string list \<times> event list" where
  "classify_disks w [] h = ([], [])"
| "classify_disks w (disk # disks) h =
     (let (status, es1) = check_smart_status w disk h;
          es2 = es1 @ [Print (disk @ '': SMART status = '' @ status)];
          (failed_disks, es3) = classify_disks w disks (h @ es2)
      in (if lower status \<noteq> ''passed'' then disk # failed_disks else failed_disks, es2 @ es3))"

text \<open>Lines 172 to 189 of \<open>main\<close>: the decision, the alert and the repair.\<close>

definition alert_and_repair ::
  "world \<Rightarrow> string list \<Rightarrow> string list \<Rightarrow> string list \<Rightarrow> event list
     \<Rightarrow> exn option \<times> string list \<times> event list"
where
  "alert_and_repair w failed_disks log_errors stdin h =
     (if failed_disks \<noteq> [] \<or> log_errors \<noteq> []
      then (let es1 = send_email w alert_subject (alert_body failed_disks log_errors) h;
                (raised, stdin', es2) = prompt_repair w failed_disks stdin (h @ es1)
            in (raised, stdin', es1 @ es2))
      else (None, stdin,
            [Print (nl # ''All disks passed SMART checks and no disk errors found in logs.'')]))"

text \<open>Lines 159 to 189 of \<open>main\<close>: what \<open>main\<close> does with a non-empty list of disks.\<close>

definition check_disks ::
  "world \<Rightarrow> string list \<Rightarrow> string list \<Rightarrow> event list \<Rightarrow> exn option \<times> string list \<times> event list"
where
  "check_disks w disks stdin h =
     (let (failed_disks, es1) = classify_disks w disks h;
          (log_errors, es2) = parse_log_for_errors w (h @ es1);
          es3 = es1 @ es2 @
                (if log_errors \<noteq> []
                 then Print (nl # ''Disk-related errors found in system logs:'') #
                      map Print log_errors
                 else []);
          (raised, stdin', es4) = alert_and_repair w failed_disks log_errors stdin (h @ es3)
      in (raised, stdin', es3 @ es4))"

definition main :: "world \<Rightarrow> string list \<Rightarrow> event list \<Rightarrow> exn option \<times> string list \<times> event list"
where
  "main w stdin h =
     (let (disks, es1) = get_disks w h in
      if disks = [] then (None, stdin, es1 @ [Print ''No disks found.''])
      else (let (raised, stdin', es2) = check_disks w disks stdin (h @ es1)
            in (raised, stdin', es1 @ es2)))"

text \<open>
  The script: the guarded import of \<open>config\<close>, then \<open>main()\<close>. The result is the exit status
  of the process with the events of the run: 1 from \<open>exit(1)\<close>, 1 when an exception leaves
  \<open>main\<close> (the interpreter prints the traceback on standard error), 0 when \<open>main\<close> returns.
\<close>

definition script :: "world \<Rightarrow> string list \<Rightarrow> nat \<times> event list" where
  "script w stdin =
     (if \<not> config_present w
      then (1, [Print ''Please create a config.py file based on config_example.py''])
      else (case main w stdin [] of
              (None, stdin', es) \<Rightarrow> (0, es)
            | (Some e, stdin', es) \<Rightarrow> (1, es)))"

section \<open>Observations on a run\<close>

text \<open>
  \<open>invokes tool ev\<close>: the event is a call of \<open>subprocess.run\<close> on the program \<open>tool\<close>.
  \<open>is_smtp ev\<close>: the event is a call of \<open>send_email\<close>, that is, the alert fires.
  \<open>is_log_read ev\<close>: the event is a read of the log source, the file or the journal.
  \<open>quiet ev\<close>: the event is neither of the two.
\<close>

fun invokes :: "string \<Rightarrow> event \<Rightarrow> bool" where
  "invokes tool (Ran argv) = (argv \<noteq> [] \<and> hd argv = tool)"
| "invokes tool ev = False"

fun is_smtp :: "event \<Rightarrow> bool" where
  "is_smtp (Smtp subject body) = True"
| "is_smtp ev = False"

fun is_log_read :: "event \<Rightarrow> bool" where
  "is_log_read (OpenFile path) = True"
| "is_log_read (Ran argv) = (argv = journal_argv)"
| "is_log_read ev = False"

definition quiet :: "event \<Rightarrow> bool" where
  "quiet ev = (\<not> is_smtp ev \<and> \<not> is_log_read ev)"

text \<open>
  Two worlds, each with its own history, agree when every process run from now on gets
  the same answer in both, whatever happens in between.
\<close>

definition agree :: "world \<Rightarrow> event list \<Rightarrow> world \<Rightarrow> event list \<Rightarrow> bool" where
  "agree w1 h1 w2 h2 = (\<forall>es argv. exec w1 (h1 @ es) argv = exec w2 (h2 @ es) argv)"

text \<open>
  The SMART status that the loop of \<open>main\<close> gets for each disk, at that disk's turn.
\<close>

fun smart_statuses :: "world \<Rightarrow> string list \<Rightarrow> event list \<Rightarrow> (string \<times> string) list" where
  "smart_statuses w [] h = []"
| "smart_statuses w (disk # disks) h =
     (let (status, es1) = check_smart_status w disk h;
          es2 = es1 @ [Print (disk @ '': SMART status = '' @ status)]
      in (disk, status) # smart_statuses w disks (h @ es2))"

section \<open>The words of the specification\<close>

text \<open>
  A line contains a keyword case-insensitively when some contiguous piece of the line
  equals the keyword up to the case of its letters.
\<close>

definition contains_ignoring_case :: "string \<Rightarrow> string \<Rightarrow> bool" where
  "contains_ignoring_case line keyword =
     (\<exists>pre mid post. line = pre @ mid @ post \<and> lower mid = lower keyword)"

text \<open>
  The fixed textual pattern matches an output when the output contains the fixed text
  followed by a word character.
\<close>

definition pattern_matches :: "string \<Rightarrow> bool" where
  "pattern_matches out =
     (\<exists>pre c rest. out = pre @ smart_prefix @ c # rest \<and> word_char c)"

text \<open>
  The itemized list of the alert body, and its two sections: an empty category has no
  section.
\<close>

definition itemized :: "string list \<Rightarrow> string" where
  "itemized xs = concat (map (\<lambda>x. '' - '' @ x @ [nl]) xs)"

definition disks_section :: "string list \<Rightarrow> string" where
  "disks_section failed_disks =
     (if failed_disks = [] then []
      else ''Failed or failing disks (SMART):'' @ [nl] @ itemized failed_disks @ [nl])"

definition logs_section :: "string list \<Rightarrow> string" where
  "logs_section log_errors =
     (if log_errors = [] then []
      else ''Disk-related errors from system logs:'' @ [nl] @ itemized log_errors)"

section \<open>Example worlds\<close>

text \<open>
  \<open>/dev/sda1\<close> is mounted and busy: \<open>umount\<close> fails with status 32. No other program can
  be launched.
\<close>

definition w_busy :: world where
  "w_busy =
     \<lparr>config_present = True, LOG_FILE = None,
      exec = (\<lambda>h argv.
        if argv = [''mountpoint'', ''-q'', ''/dev/sda1'']
        then Inr \<lparr>returncode = 0, stdout = [], stderr = []\<rparr>
        else if argv = [''umount'', ''/dev/sda1'']
        then Inr \<lparr>returncode = 32, stdout = [], stderr = ''umount: /dev/sda1: target is busy.'' @ [nl]\<rparr>
        else Inl (Err ''No such file or directory'')),
      readlines = (\<lambda>h path. Inl (Err ''No such file or directory'')),
      smtp = (\<lambda>h subject body. None)\<rparr>"

text \<open>
  \<open>mountpoint\<close> is not installed, so the query raises; \<open>fsck\<close> finds nothing to repair.
\<close>

definition w_no_mountpoint :: world where
  "w_no_mountpoint =
     \<lparr>config_present = True, LOG_FILE = None,
      exec = (\<lambda>h argv.
        if argv = [''fsck'', ''-y'', ''/dev/sda1'']
        then Inr \<lparr>returncode = 0, stdout = ''/dev/sda1: clean'', stderr = []\<rparr>
        else Inl (Err ''No such file or directory'')),
      readlines = (\<lambda>h path. Inl (Err ''No such file or directory'')),
      smtp = (\<lambda>h subject body. None)\<rparr>"

text \<open>
  \<open>smartctl\<close> prints a verdict other than PASSED and FAILED for \<open>/dev/sda\<close>, PASSED for
  \<open>/dev/sdb\<close>, no verdict line for \<open>/dev/sdc\<close>, and cannot be launched on any other disk.
\<close>

definition w_odd_token :: world where
  "w_odd_token =
     \<lparr>config_present = True, LOG_FILE = None,
      exec = (\<lambda>h argv.
        if argv = [''smartctl'', ''-H'', ''/dev/sda'']
        then Inr \<lparr>returncode = 0,
                  stdout = ''SMART overall-health self-assessment test result: DEGRADED'' @ [nl],
                  stderr = []\<rparr>
        else if argv = [''smartctl'', ''-H'', ''/dev/sdb'']
        then Inr \<lparr>returncode = 0,
                  stdout = ''SMART overall-health self-assessment test result: PASSED'' @ [nl],
                  stderr = []\<rparr>
        else if argv = [''smartctl'', ''-H'', ''/dev/sdc'']
        then Inr \<lparr>returncode = 0, stdout = ''SMART Health Status: OK'' @ [nl], stderr = []\<rparr>
        else Inl (Err ''No such file or directory'')),
      readlines = (\<lambda>h path. Inl (Err ''No such file or directory'')),
      smtp = (\<lambda>h subject body. None)\<rparr>"

text \<open>
  The list of disks and the list of the partitions of \<open>/dev/sda\<close> each have a row of one
  field among well-formed rows; the rows of \<open>/dev/sdc\<close> are all well formed.
\<close>

definition w_malformed_row :: world where
  "w_malformed_row =
     \<lparr>config_present = True, LOG_FILE = None,
      exec = (\<lambda>h argv.
        if argv = [''lsblk'', ''-dn'', ''-o'', ''NAME,TYPE'']
        then Inr \<lparr>returncode = 0,
                  stdout = ''sda disk'' @ [nl] @ ''sdb'' @ [nl] @ ''sdc disk'' @ [nl],
                  stderr = []\<rparr>
        else if argv = [''lsblk'', ''-ln'', ''-o'', ''NAME,TYPE'', ''/dev/sda'']
        then Inr \<lparr>returncode = 0,
                  stdout = ''sda disk'' @ [nl] @ ''sda1 part'' @ [nl] @ ''sda2'' @ [nl],
                  stderr = []\<rparr>
        else if argv = [''lsblk'', ''-ln'', ''-o'', ''NAME,TYPE'', ''/dev/sdc'']
        then Inr \<lparr>returncode = 0,
                  stdout = ''sdc disk'' @ [nl] @ ''sdc1 part'' @ [nl] @ ''sdc2 part'' @ [nl],
                  stderr = []\<rparr>
        else Inl (Err ''No such file or directory'')),
      readlines = (\<lambda>h path. Inl (Err ''No such file or directory'')),
      smtp = (\<lambda>h subject body. None)\<rparr>"

text \<open>
  Two disks, \<open>/dev/sda\<close> healthy and \<open>/dev/sdb\<close> failing with one unmounted partition; a
  journal without anomalies; a mail relay that accepts the alert.
\<close>

definition w_one_failed :: world where
  "w_one_failed =
     \<lparr>config_present = True, LOG_FILE = None,
      exec = (\<lambda>h argv.
        if argv = [''lsblk'', ''-dn'', ''-o'', ''NAME,TYPE'']
        then Inr \<lparr>returncode = 0,
                  stdout = ''sda disk'' @ [nl] @ ''sdb disk'' @ [nl] @ ''sr0 rom'' @ [nl],
                  stderr = []\<rparr>
        else if argv = [''smartctl'', ''-H'', ''/dev/sda'']
        then Inr \<lparr>returncode = 0,
                  stdout = ''SMART overall-health self-assessment test result: PASSED'' @ [nl],
                  stderr = []\<rparr>
        else if argv = [''smartctl'', ''-H'', ''/dev/sdb'']
        then Inr \<lparr>returncode = 8,
                  stdout = ''SMART overall-health self-assessment test result: FAILED!'' @ [nl],
                  stderr = []\<rparr>
        else if argv = journal_argv
        then Inr \<lparr>returncode = 0, stdout = ''usb 1-1: new high-speed USB device'' @ [nl],
                  stderr = []\<rparr>
        else if argv = [''lsblk'', ''-ln'', ''-o'', ''NAME,TYPE'', ''/dev/sdb'']
        then Inr \<lparr>returncode = 0, stdout = ''sdb disk'' @ [nl] @ ''sdb1 part'' @ [nl],
                  stderr = []\<rparr>
        else if argv = [''mountpoint'', ''-q'', ''/dev/sdb1'']
        then Inr \<lparr>returncode = 1, stdout = [], stderr = []\<rparr>
        else if argv = [''fsck'', ''-y'', ''/dev/sdb1'']
        then Inr \<lparr>returncode = 0, stdout = ''/dev/sdb1: clean'', stderr = []\<rparr>
        else Inl (Err ''No such file or directory'')),
      readlines = (\<lambda>h path. Inl (Err ''No such file or directory'')),
      smtp = (\<lambda>h subject body. None)\<rparr>"

text \<open>
The same world with a mail relay that refuses the connection.
\<close>

definition w_smtp_down :: world where
  "w_smtp_down = w_one_failed\<lparr>smtp := (\<lambda>h subject body. Some (Err ''Connection refused''))\<rparr>"

text \<open>
The same world with a log file that holds one anomalous line.
\<close>

definition w_io_errors :: world where
  "w_io_errors =
     w_one_failed
       \<lparr>LOG_FILE := Some ''/var/log/messages'',
        readlines := (\<lambda>h path.
          if path = ''/var/log/messages''
          then Inr [''kernel: ata1: I/O error, dev sdb'' @ [nl], ''kernel: eth0: link up'' @ [nl]]
          else Inl (Err ''No such file or directory''))\<rparr>"

text \<open>
  The same log file on a host where \<open>lsblk\<close> lists no device of type \<open>disk\<close>, and no other
  program can be launched.
\<close>

definition w_no_disks :: world where
  "w_no_disks =
     w_io_errors
       \<lparr>exec := (\<lambda>h argv.
          if argv = [''lsblk'', ''-dn'', ''-o'', ''NAME,TYPE'']
          then Inr \<lparr>returncode = 0, stdout = ''sr0 rom'' @ [nl] @ ''loop0 loop'' @ [nl],
                    stderr = []\<rparr>
          else Inl (Err ''No such file or directory''))\<rparr>"

section \<open>Properties of the string functions\<close>

lemmas string_eval =
  strip_def isspace_def nl_def split_ws_def split_nl_def lower_def lower_char_def is_upper_def
  in_range_def word_char_def smart_prefix_def error_keywords_def

lemmas run_eval =
  script_def main_def check_disks_def alert_and_repair_def send_email_def
  alert_body_def alert_subject_def get_disks_def get_partitions_def check_smart_status_def
  parse_log_for_errors_def read_logs_def is_mounted_def repair_question_def
  splitlines_def linebreak_def journal_argv_def is_error_line_def Let_def string_eval

lemma lower_char_code_point:
  "is_upper c \<Longrightarrow> (of_char (lower_char c) :: nat) = of_char c + 32"
  by (cases c) (auto simp: lower_char_def is_upper_def in_range_def of_bool_def split: if_splits)

lemma starts_with_iff: "starts_with p s \<longleftrightarrow> (\<exists>post. s = p @ post)"
  by (induction p s rule: starts_with.induct) auto

lemma contains_iff: "contains sub s \<longleftrightarrow> (\<exists>pre post. s = pre @ sub @ post)"
proof (induction s)
  case Nil
  then show ?case by auto
next
  case (Cons c cs)
  have "(\<exists>pre post. c # cs = pre @ sub @ post) \<longleftrightarrow>
        (\<exists>post. c # cs = sub @ post) \<or> (\<exists>pre post. cs = pre @ sub @ post)"
  proof
    assume "\<exists>pre post. c # cs = pre @ sub @ post"
    then obtain pre post where eq: "c # cs = pre @ sub @ post" by blast
    show "(\<exists>post. c # cs = sub @ post) \<or> (\<exists>pre post. cs = pre @ sub @ post)"
    proof (cases pre)
      case Nil
      with eq show ?thesis by auto
    next
      case (Cons p ps)
      with eq have "cs = ps @ sub @ post" by simp
      then show ?thesis by blast
    qed
  next
    assume "(\<exists>post. c # cs = sub @ post) \<or> (\<exists>pre post. cs = pre @ sub @ post)"
    then show "\<exists>pre post. c # cs = pre @ sub @ post"
    proof
      assume "\<exists>post. c # cs = sub @ post"
      then obtain post where "c # cs = [] @ sub @ post" by auto
      then show ?thesis by blast
    next
      assume "\<exists>pre post. cs = pre @ sub @ post"
      then obtain pre post where "c # cs = (c # pre) @ sub @ post" by auto
      then show ?thesis by blast
    qed
  qed
  with Cons show ?case by (simp add: starts_with_iff)
qed

section \<open>Properties of the repair of one partition\<close>

lemma run_fsck_events:
  "\<exists>post. snd (run_fsck w device h) =
     [Print (''Running fsck on '' @ device @ ''...''), Ran [''fsck'', ''-y'', device]] @ post \<and>
     \<not> list_ex (invokes tool) post"
  by (auto simp: run_fsck_def Let_def split: sum.splits)

text \<open>
  C1. When the mount query of \<open>repair_filesystem\<close> observes the partition as mounted, the
  events of the repair are the query and its notice (\<open>pre\<close>), then the call of \<open>umount\<close>,
  then the rest (\<open>post\<close>): \<open>umount\<close> is attempted before any \<open>fsck\<close>, and \<open>fsck\<close> is run only
  when \<open>umount\<close> has returned status 0. When \<open>umount\<close> returns another status, the repair
  returns \<open>False\<close> after reporting the failure, and \<open>fsck\<close> is never invoked.
\<close>

theorem repair_unmounts_before_fsck:
  assumes "is_mounted w device h = (True, es1)"
      and "pre = es1 @ [Print (device @ '' is currently mounted. Attempting to unmount...'')]"
  shows "(\<exists>post. snd (repair_filesystem w device h) = pre @ Ran [''umount'', device] # post \<and>
            \<not> list_ex (invokes ''fsck'') pre \<and>
            (list_ex (invokes ''fsck'') post \<longrightarrow>
               (\<exists>r. exec w (h @ pre) [''umount'', device] = Inr r \<and> returncode r = 0))) \<and>
         (\<forall>r. exec w (h @ pre) [''umount'', device] = Inr r \<and> returncode r \<noteq> 0 \<longrightarrow>
            repair_filesystem w device h =
              (False, pre @ [Ran [''umount'', device],
                 Print (''Failed to unmount '' @ device @ '': '' @ strip (stderr r)),
                 Print ''Skipping repair for this partition.'']) \<and>
            \<not> list_ex (invokes ''fsck'') (snd (repair_filesystem w device h)))"
proof -
  have es1: "es1 = [Ran [''mountpoint'', ''-q'', device]]"
    using assms(1) by (auto simp: is_mounted_def split: sum.splits)
  have nofsck: "\<not> list_ex (invokes ''fsck'') pre"
    by (simp add: assms(2) es1)
  show ?thesis
  proof (cases "exec w (h @ pre) [''umount'', device]")
    case (Inl e)
    then show ?thesis using assms nofsck
      by (simp add: repair_filesystem_def)
  next
    case (Inr r)
    show ?thesis
    proof (cases "returncode r = 0")
      case True
      then show ?thesis using assms Inr nofsck
        by (simp add: repair_filesystem_def split: prod.splits)
    next
      case False
      then show ?thesis using assms Inr nofsck
        by (simp add: repair_filesystem_def)
    qed
  qed
qed

theorem repair_unmounts_before_fsck_witness:
  "is_mounted w_busy ''/dev/sda1'' [] = (True, [Ran [''mountpoint'', ''-q'', ''/dev/sda1'']]) \<and>
   repair_filesystem w_busy ''/dev/sda1'' [] =
     (False, [Ran [''mountpoint'', ''-q'', ''/dev/sda1''],
              Print ''/dev/sda1 is currently mounted. Attempting to unmount...'',
              Ran [''umount'', ''/dev/sda1''],
              Print ''Failed to unmount /dev/sda1: umount: /dev/sda1: target is busy.'',
              Print ''Skipping repair for this partition.''])"
  using repair_unmounts_before_fsck [of w_busy "''/dev/sda1''" "[]"
      "[Ran [''mountpoint'', ''-q'', ''/dev/sda1'']]"
      "[Ran [''mountpoint'', ''-q'', ''/dev/sda1''],
        Print ''/dev/sda1 is currently mounted. Attempting to unmount...'']"]
  by (simp add: w_busy_def is_mounted_def strip_def isspace_def nl_def)

text \<open>
  C10. When the \<open>mountpoint\<close> process cannot be launched, \<open>is_mounted\<close> returns \<open>False\<close>, and
  \<open>repair_filesystem\<close> goes on to \<open>fsck\<close> as for an unmounted partition: its events are the
  failed query, its diagnostic and the notice, followed by the run of \<open>fsck\<close>, with no call
  of \<open>umount\<close>.
\<close>

theorem mount_query_failure_skips_unmount:
  assumes "exec w h [''mountpoint'', ''-q'', device] = Inl e"
      and "es = [Ran [''mountpoint'', ''-q'', device],
                 Diag (''Error checking mountpoint for '' @ device @ '': '') e,
                 Print (device @ '' is not mounted. Proceeding with repair.'')]"
  shows "fst (is_mounted w device h) = False \<and>
         repair_filesystem w device h =
           (fst (run_fsck w device (h @ es)), es @ snd (run_fsck w device (h @ es))) \<and>
         \<not> list_ex (invokes ''umount'') (snd (repair_filesystem w device h)) \<and>
         list_ex (invokes ''fsck'') (snd (repair_filesystem w device h))"
proof -
  obtain post where post:
    "snd (run_fsck w device (h @ es)) =
       [Print (''Running fsck on '' @ device @ ''...''), Ran [''fsck'', ''-y'', device]] @ post"
    "\<not> list_ex (invokes ''umount'') post"
    using run_fsck_events by blast
  have rep: "repair_filesystem w device h =
           (fst (run_fsck w device (h @ es)), es @ snd (run_fsck w device (h @ es)))"
    using assms by (simp add: repair_filesystem_def is_mounted_def split: prod.splits)
  show ?thesis using assms(1) post
    by (simp add: rep is_mounted_def assms(2))
qed

theorem mount_query_failure_skips_unmount_witness:
  "exec w_no_mountpoint [] [''mountpoint'', ''-q'', ''/dev/sda1''] =
     Inl (Err ''No such file or directory'') \<and>
   repair_filesystem w_no_mountpoint ''/dev/sda1'' [] =
     (True, [Ran [''mountpoint'', ''-q'', ''/dev/sda1''],
             Diag ''Error checking mountpoint for /dev/sda1: '' (Err ''No such file or directory''),
             Print ''/dev/sda1 is not mounted. Proceeding with repair.'',
             Print ''Running fsck on /dev/sda1...'',
             Ran [''fsck'', ''-y'', ''/dev/sda1''],
             Print ''/dev/sda1: clean'',
             Print ''Filesystem on /dev/sda1 repaired successfully or no issues found.''])"
  using mount_query_failure_skips_unmount [of w_no_mountpoint "[]" "''/dev/sda1''"
      "Err ''No such file or directory''"
      "[Ran [''mountpoint'', ''-q'', ''/dev/sda1''],
        Diag ''Error checking mountpoint for /dev/sda1: '' (Err ''No such file or directory''),
        Print ''/dev/sda1 is not mounted. Proceeding with repair.'']"]
  by (simp add: w_no_mountpoint_def run_fsck_def)

section \<open>Properties of the inventory\<close>

lemma scan_rows_ok:
  "\<forall>row \<in> set rows. length (split_ws row) = 2 \<Longrightarrow>
   scan_rows kind rows found =
     Inr (found @ map (\<lambda>row. ''/dev/'' @ split_ws row ! 0) (filter (\<lambda>row. split_ws row ! 1 = kind) rows))"
  by (induction rows arbitrary: found) (auto simp: Let_def)

lemma scan_rows_bad:
  "\<exists>row \<in> set rows. length (split_ws row) \<noteq> 2 \<Longrightarrow>
   \<exists>n. n \<noteq> 2 \<and> scan_rows kind rows found = Inl (Unpack n)"
  by (induction rows arbitrary: found) (auto simp: Let_def)

text \<open>
  C4, as stated, fails: a row of one field, among the disks or among the partitions, makes
  the enumeration return the empty list, without the well-formed rows around it.
\<close>

theorem malformed_row_counterexample:
  "get_disks w_malformed_row [] =
     ([], [Ran [''lsblk'', ''-dn'', ''-o'', ''NAME,TYPE''],
           Diag ''Error getting disks: '' (Unpack 1)]) \<and>
   get_partitions w_malformed_row ''/dev/sda'' [] =
     ([], [Ran [''lsblk'', ''-ln'', ''-o'', ''NAME,TYPE'', ''/dev/sda''],
           Diag ''Error getting partitions for /dev/sda: '' (Unpack 1)])"
  by (simp add: get_disks_def get_partitions_def w_malformed_row_def Let_def string_eval)

text \<open>
  C4, amended. When \<open>lsblk\<close> has run, \<open>get_disks\<close> and \<open>get_partitions\<close> never raise. If every
  row of the stripped output has exactly two whitespace-separated fields, the result is
  \<open>/dev/NAME\<close> for each row of the wanted type, in order. If some row has another number of
  fields, the enumeration is abandoned as a whole: the result is the empty list, with a
  diagnostic.
\<close>

theorem malformed_row_empties_enumeration:
  assumes "exec w h [''lsblk'', ''-dn'', ''-o'', ''NAME,TYPE''] = Inr dres"
      and "exec w h' [''lsblk'', ''-ln'', ''-o'', ''NAME,TYPE'', disk] = Inr pres"
      and "drows = split_nl (strip (stdout dres))"
      and "prows = split_nl (strip (stdout pres))"
  shows "((\<forall>row \<in> set drows. length (split_ws row) = 2) \<longrightarrow>
            get_disks w h =
              (map (\<lambda>row. ''/dev/'' @ split_ws row ! 0) (filter (\<lambda>row. split_ws row ! 1 = ''disk'') drows),
               [Ran [''lsblk'', ''-dn'', ''-o'', ''NAME,TYPE'']])) \<and>
         ((\<exists>row \<in> set drows. length (split_ws row) \<noteq> 2) \<longrightarrow>
            (\<exists>n. n \<noteq> 2 \<and> get_disks w h =
               ([], [Ran [''lsblk'', ''-dn'', ''-o'', ''NAME,TYPE''],
                     Diag ''Error getting disks: '' (Unpack n)]))) \<and>
         ((\<forall>row \<in> set prows. length (split_ws row) = 2) \<longrightarrow>
            get_partitions w disk h' =
              (map (\<lambda>row. ''/dev/'' @ split_ws row ! 0) (filter (\<lambda>row. split_ws row ! 1 = ''part'') prows),
               [Ran [''lsblk'', ''-ln'', ''-o'', ''NAME,TYPE'', disk]])) \<and>
         ((\<exists>row \<in> set prows. length (split_ws row) \<noteq> 2) \<longrightarrow>
            (\<exists>n. n \<noteq> 2 \<and> get_partitions w disk h' =
               ([], [Ran [''lsblk'', ''-ln'', ''-o'', ''NAME,TYPE'', disk],
                     Diag (''Error getting partitions for '' @ disk @ '': '') (Unpack n)])))"
proof (intro conjI impI)
  assume "\<forall>row \<in> set drows. length (split_ws row) = 2"
  from scan_rows_ok [OF this, of "''disk''" "[]"] assms(1,3)
  show "get_disks w h =
      (map (\<lambda>row. ''/dev/'' @ split_ws row ! 0) (filter (\<lambda>row. split_ws row ! 1 = ''disk'') drows),
       [Ran [''lsblk'', ''-dn'', ''-o'', ''NAME,TYPE'']])"
    by (simp add: get_disks_def)
next
  assume "\<exists>row \<in> set drows. length (split_ws row) \<noteq> 2"
  from scan_rows_bad [OF this, of "''disk''" "[]"] assms(1,3)
  show "\<exists>n. n \<noteq> 2 \<and> get_disks w h =
       ([], [Ran [''lsblk'', ''-dn'', ''-o'', ''NAME,TYPE''],
             Diag ''Error getting disks: '' (Unpack n)])"
    by (auto simp: get_disks_def)
next
  assume "\<forall>row \<in> set prows. length (split_ws row) = 2"
  from scan_rows_ok [OF this, of "''part''" "[]"] assms(2,4)
  show "get_partitions w disk h' =
      (map (\<lambda>row. ''/dev/'' @ split_ws row ! 0) (filter (\<lambda>row. split_ws row ! 1 = ''part'') prows),
       [Ran [''lsblk'', ''-ln'', ''-o'', ''NAME,TYPE'', disk]])"
    by (simp add: get_partitions_def)
next
  assume "\<exists>row \<in> set prows. length (split_ws row) \<noteq> 2"
  from scan_rows_bad [OF this, of "''part''" "[]"] assms(2,4)
  show "\<exists>n. n \<noteq> 2 \<and> get_partitions w disk h' =
       ([], [Ran [''lsblk'', ''-ln'', ''-o'', ''NAME,TYPE'', disk],
             Diag (''Error getting partitions for '' @ disk @ '': '') (Unpack n)])"
    by (auto simp: get_partitions_def)
qed

theorem malformed_row_empties_enumeration_witness:
  "fst (get_disks w_malformed_row []) = [] \<and>
   get_partitions w_malformed_row ''/dev/sdc'' [] =
     ([''/dev/sdc1'', ''/dev/sdc2''], [Ran [''lsblk'', ''-ln'', ''-o'', ''NAME,TYPE'', ''/dev/sdc'']])"
  using malformed_row_empties_enumeration
    [where w = w_malformed_row and h = "[]" and h' = "[]" and disk = "''/dev/sdc''"
       and dres = "\<lparr>returncode = 0,
                     stdout = ''sda disk'' @ [nl] @ ''sdb'' @ [nl] @ ''sdc disk'' @ [nl],
                     stderr = []\<rparr>"
       and pres = "\<lparr>returncode = 0,
                     stdout = ''sdc disk'' @ [nl] @ ''sdc1 part'' @ [nl] @ ''sdc2 part'' @ [nl],
                     stderr = []\<rparr>"
       and drows = "[''sda disk'', ''sdb'', ''sdc disk'']"
       and prows = "[''sdc disk'', ''sdc1 part'', ''sdc2 part'']"]
  by (auto simp: w_malformed_row_def string_eval)

section \<open>Properties of the health classifier\<close>

lemma re_search_here:
  "(starts_with smart_prefix s \<and> takeWhile word_char (drop (length smart_prefix) s) \<noteq> []) \<longleftrightarrow>
   (\<exists>c rest. s = smart_prefix @ c # rest \<and> word_char c)"
proof
  assume a: "starts_with smart_prefix s \<and> takeWhile word_char (drop (length smart_prefix) s) \<noteq> []"
  then obtain post where post: "s = smart_prefix @ post" by (auto simp: starts_with_iff)
  with a have "takeWhile word_char post \<noteq> []" by simp
  then obtain c rest where "post = c # rest" "word_char c"
    by (cases post) (auto split: if_splits)
  with post show "\<exists>c rest. s = smart_prefix @ c # rest \<and> word_char c" by blast
next
  assume "\<exists>c rest. s = smart_prefix @ c # rest \<and> word_char c"
  then show "starts_with smart_prefix s \<and> takeWhile word_char (drop (length smart_prefix) s) \<noteq> []"
    by (auto simp: starts_with_iff)
qed

lemma smart_prefix_nonempty: "smart_prefix \<noteq> []"
  by (simp add: smart_prefix_def)

lemma re_search_None: "re_search out = None \<longleftrightarrow> \<not> pattern_matches out"
proof (induction out)
  case Nil
  then show ?case using smart_prefix_nonempty by (simp add: pattern_matches_def)
next
  case (Cons a out)
  have step: "pattern_matches (a # out) \<longleftrightarrow>
        (\<exists>c rest. a # out = smart_prefix @ c # rest \<and> word_char c) \<or> pattern_matches out"
    unfolding pattern_matches_def
  proof
    assume "\<exists>pre c rest. a # out = pre @ smart_prefix @ c # rest \<and> word_char c"
    then obtain pre c rest where eq: "a # out = pre @ smart_prefix @ c # rest" "word_char c"
      by blast
    show "(\<exists>c rest. a # out = smart_prefix @ c # rest \<and> word_char c) \<or>
          (\<exists>pre c rest. out = pre @ smart_prefix @ c # rest \<and> word_char c)"
    proof (cases pre)
      case Nil
      with eq show ?thesis by auto
    next
      case (Cons p ps)
      with eq have "out = ps @ smart_prefix @ c # rest" by simp
      with eq(2) show ?thesis by blast
    qed
  next
    assume "(\<exists>c rest. a # out = smart_prefix @ c # rest \<and> word_char c) \<or>
          (\<exists>pre c rest. out = pre @ smart_prefix @ c # rest \<and> word_char c)"
    then show "\<exists>pre c rest. a # out = pre @ smart_prefix @ c # rest \<and> word_char c"
    proof
      assume "\<exists>c rest. a # out = smart_prefix @ c # rest \<and> word_char c"
      then obtain c rest where "a # out = [] @ smart_prefix @ c # rest" "word_char c" by auto
      then show ?thesis by blast
    next
      assume "\<exists>pre c rest. out = pre @ smart_prefix @ c # rest \<and> word_char c"
      then obtain pre c rest where "a # out = (a # pre) @ smart_prefix @ c # rest" "word_char c"
        by auto
      then show ?thesis by blast
    qed
  qed
  show ?case
    using Cons re_search_here [of "a # out"]
    by (simp add: step Let_def del: starts_with.simps)
qed

lemma re_search_Some:
  "re_search out = Some token \<Longrightarrow>
   \<exists>pre rest. out = pre @ smart_prefix @ token @ rest \<and> token \<noteq> [] \<and>
      list_all word_char token \<and> (rest = [] \<or> \<not> word_char (hd rest))"
proof (induction out)
  case Nil
  then show ?case by simp
next
  case (Cons a out)
  show ?case
  proof (cases "starts_with smart_prefix (a # out) \<and>
                takeWhile word_char (drop (length smart_prefix) (a # out)) \<noteq> []")
    case True
    then obtain post where post: "a # out = smart_prefix @ post"
      by (auto simp: starts_with_iff)
    from True Cons.prems
    have "token = takeWhile word_char (drop (length smart_prefix) (a # out))"
      by (simp add: Let_def del: starts_with.simps)
    with True have tok: "token = takeWhile word_char post" "token \<noteq> []"
      by (simp_all add: post)
    have "post = token @ dropWhile word_char post" by (simp add: tok)
    moreover have "dropWhile word_char post = [] \<or> \<not> word_char (hd (dropWhile word_char post))"
      using hd_dropWhile [of word_char post] by blast
    moreover have "list_all word_char token"
      by (simp add: tok list_all_iff) (meson set_takeWhileD)
    ultimately have "a # out = [] @ smart_prefix @ token @ dropWhile word_char post \<and>
       token \<noteq> [] \<and> list_all word_char token \<and>
       (dropWhile word_char post = [] \<or> \<not> word_char (hd (dropWhile word_char post)))"
      using post tok by simp
    then show ?thesis by blast
  next
    case False
    with Cons.prems have "re_search out = Some token"
      by (auto simp: Let_def simp del: starts_with.simps)
    from Cons.IH [OF this] obtain pre rest where
      "a # out = (a # pre) @ smart_prefix @ token @ rest \<and> token \<noteq> [] \<and>
       list_all word_char token \<and> (rest = [] \<or> \<not> word_char (hd rest))"
      by auto
    then show ?thesis by blast
  qed
qed

text \<open>
  C5, as stated, fails: the classifier returns the word after the fixed text as it is, so
  a verdict other than PASSED and FAILED gives a status outside the four.
\<close>

theorem classifier_other_token_counterexample:
  "fst (check_smart_status w_odd_token ''/dev/sda'' []) = ''DEGRADED'' \<and>
   fst (check_smart_status w_odd_token ''/dev/sda'' []) \<notin>
     {''PASSED'', ''FAILED'', ''UNKNOWN'', ''ERROR''}"
  by (simp add: check_smart_status_def w_odd_token_def Let_def string_eval)

text \<open>
  C5, amended. \<open>check_smart_status\<close> never raises (it is a total function into strings)
  and returns \<open>ERROR\<close> when \<open>smartctl\<close> cannot be launched, \<open>UNKNOWN\<close> when the pattern does
  not match its output, and otherwise a word of the output: a non-empty, maximal run of
  word characters that follows the fixed text.
\<close>

theorem classifier_token_or_default:
  "(\<forall>e. exec w h [''smartctl'', ''-H'', disk] = Inl e \<longrightarrow>
      fst (check_smart_status w disk h) = ''ERROR'') \<and>
   (\<forall>result. exec w h [''smartctl'', ''-H'', disk] = Inr result \<and>
      \<not> pattern_matches (stdout result) \<longrightarrow>
      fst (check_smart_status w disk h) = ''UNKNOWN'') \<and>
   (\<forall>result. exec w h [''smartctl'', ''-H'', disk] = Inr result \<and>
      pattern_matches (stdout result) \<longrightarrow>
      (\<exists>pre rest. stdout result = pre @ smart_prefix @ fst (check_smart_status w disk h) @ rest \<and>
         fst (check_smart_status w disk h) \<noteq> [] \<and>
         list_all word_char (fst (check_smart_status w disk h)) \<and>
         (rest = [] \<or> \<not> word_char (hd rest))))"
proof (intro conjI allI impI)
  fix e assume "exec w h [''smartctl'', ''-H'', disk] = Inl e"
  then show "fst (check_smart_status w disk h) = ''ERROR''"
    by (simp add: check_smart_status_def)
next
  fix result
  assume "exec w h [''smartctl'', ''-H'', disk] = Inr result \<and> \<not> pattern_matches (stdout result)"
  then show "fst (check_smart_status w disk h) = ''UNKNOWN''"
    using re_search_None [of "stdout result"] by (simp add: check_smart_status_def)
next
  fix result
  assume a: "exec w h [''smartctl'', ''-H'', disk] = Inr result \<and> pattern_matches (stdout result)"
  then obtain token where tok: "re_search (stdout result) = Some token"
    using re_search_None [of "stdout result"] by auto
  with a have "fst (check_smart_status w disk h) = token"
    by (simp add: check_smart_status_def)
  with re_search_Some [OF tok]
  show "\<exists>pre rest. stdout result = pre @ smart_prefix @ fst (check_smart_status w disk h) @ rest \<and>
         fst (check_smart_status w disk h) \<noteq> [] \<and>
         list_all word_char (fst (check_smart_status w disk h)) \<and>
         (rest = [] \<or> \<not> word_char (hd rest))"
    by simp
qed

theorem classifier_token_or_default_witness:
  "exec w_odd_token [] [''smartctl'', ''-H'', ''/dev/sdd''] = Inl (Err ''No such file or directory'') \<and>
   fst (check_smart_status w_odd_token ''/dev/sdd'' []) = ''ERROR'' \<and>
   \<not> pattern_matches (''SMART Health Status: OK'' @ [nl]) \<and>
   fst (check_smart_status w_odd_token ''/dev/sdc'' []) = ''UNKNOWN'' \<and>
   pattern_matches (''SMART overall-health self-assessment test result: PASSED'' @ [nl]) \<and>
   fst (check_smart_status w_odd_token ''/dev/sdb'' []) = ''PASSED'' \<and>
   list_all word_char (fst (check_smart_status w_odd_token ''/dev/sdb'' []))"
proof -
  have e: "exec w_odd_token [] [''smartctl'', ''-H'', ''/dev/sdd''] =
           Inl (Err ''No such file or directory'')"
    by (simp add: w_odd_token_def)
  have c: "exec w_odd_token [] [''smartctl'', ''-H'', ''/dev/sdc''] =
           Inr \<lparr>returncode = 0, stdout = ''SMART Health Status: OK'' @ [nl], stderr = []\<rparr>"
    by (simp add: w_odd_token_def)
  have b: "exec w_odd_token [] [''smartctl'', ''-H'', ''/dev/sdb''] =
           Inr \<lparr>returncode = 0,
                stdout = ''SMART overall-health self-assessment test result: PASSED'' @ [nl],
                stderr = []\<rparr>"
    by (simp add: w_odd_token_def)
  have nc: "\<not> pattern_matches (''SMART Health Status: OK'' @ [nl])"
    using re_search_None [of "''SMART Health Status: OK'' @ [nl]"]
    by (simp add: Let_def string_eval)
  have pb: "pattern_matches (''SMART overall-health self-assessment test result: PASSED'' @ [nl])"
    using re_search_None [of "''SMART overall-health self-assessment test result: PASSED'' @ [nl]"]
    by (simp add: Let_def string_eval)
  have vb: "fst (check_smart_status w_odd_token ''/dev/sdb'' []) = ''PASSED''"
    by (simp add: check_smart_status_def b Let_def string_eval)
  show ?thesis
    using classifier_token_or_default [of w_odd_token "[]" "''/dev/sdd''"]
          classifier_token_or_default [of w_odd_token "[]" "''/dev/sdc''"]
          classifier_token_or_default [of w_odd_token "[]" "''/dev/sdb''"]
          e c b nc pb vb
    by auto
qed

section \<open>Properties of the log scanner\<close>

lemma is_error_line_iff:
  "is_error_line line \<longleftrightarrow> (\<exists>keyword \<in> set error_keywords. contains_ignoring_case line keyword)"
proof -
  have "contains (lower keyword) (lower line) \<longleftrightarrow> contains_ignoring_case line keyword"
    for keyword
  proof
    assume "contains (lower keyword) (lower line)"
    then obtain pre' post' where "map lower_char line = pre' @ lower keyword @ post'"
      by (auto simp: contains_iff lower_def)
    then obtain pre rest where r: "line = pre @ rest" "map lower_char rest = lower keyword @ post'"
      using map_eq_append_conv [THEN iffD1] by metis
    then obtain mid post where "rest = mid @ post" "map lower_char mid = lower keyword"
      using map_eq_append_conv [THEN iffD1] by metis
    with r show "contains_ignoring_case line keyword"
      unfolding contains_ignoring_case_def lower_def by blast
  next
    assume "contains_ignoring_case line keyword"
    then obtain pre mid post where "line = pre @ mid @ post" "lower mid = lower keyword"
      unfolding contains_ignoring_case_def by blast
    then have "lower line = lower pre @ lower keyword @ lower post"
      by (simp add: lower_def)
    then show "contains (lower keyword) (lower line)"
      unfolding contains_iff by blast
  qed
  then show ?thesis by (simp add: is_error_line_def list_ex_iff)
qed

lemma collect_errors_eq:
  "collect_errors logs errors = errors @ map strip (filter is_error_line logs)"
  by (induction logs arbitrary: errors) auto

text \<open>
  C6. A line is flagged exactly when it contains, case-insensitively and as a substring,
  one of the seven keywords; the scanner returns the flagged lines of the log, stripped, in
  the order of the log, and nothing when the log cannot be read. The two lines of the
  specification behave as it says.
\<close>

theorem scanner_flags_keyword_lines:
  "(is_error_line line \<longleftrightarrow>
      (\<exists>keyword \<in> set error_keywords. contains_ignoring_case line keyword)) \<and>
   fst (parse_log_for_errors w h) =
     (case fst (read_logs w h) of
        Inl e \<Rightarrow> []
      | Inr logs \<Rightarrow>
          map strip (filter (\<lambda>line. \<exists>keyword \<in> set error_keywords.
                                       contains_ignoring_case line keyword) logs)) \<and>
   is_error_line ''ATA bus ERROR detected'' \<and> \<not> is_error_line ''disk nominal''"
proof -
  have eq: "(\<lambda>line. \<exists>keyword \<in> set error_keywords. contains_ignoring_case line keyword) =
            is_error_line"
    by (simp add: fun_eq_iff is_error_line_iff)
  have a: "fst (parse_log_for_errors w h) =
     (case fst (read_logs w h) of
        Inl e \<Rightarrow> []
      | Inr logs \<Rightarrow>
          map strip (filter (\<lambda>line. \<exists>keyword \<in> set error_keywords.
                                       contains_ignoring_case line keyword) logs))"
    unfolding eq
    by (simp add: parse_log_for_errors_def collect_errors_eq split: prod.splits sum.splits)
  have b: "is_error_line ''ATA bus ERROR detected''"
    by (simp add: is_error_line_def string_eval)
  have c: "\<not> is_error_line ''disk nominal''"
    by (simp add: is_error_line_def string_eval)
  show ?thesis
    by (intro conjI) (rule is_error_line_iff a b c)+
qed

theorem scanner_flags_keyword_lines_witness:
  "(\<exists>keyword \<in> set error_keywords. contains_ignoring_case ''sda1 is errorless'' keyword) \<and>
   \<not> (\<exists>keyword \<in> set error_keywords. contains_ignoring_case ''all good'' keyword)"
proof -
  have "is_error_line ''sda1 is errorless''" "\<not> is_error_line ''all good''"
    by (simp_all add: is_error_line_def string_eval)
  then show ?thesis
    using scanner_flags_keyword_lines [of "''sda1 is errorless''"]
          scanner_flags_keyword_lines [of "''all good''"]
    by blast
qed

section \<open>The events of each function\<close>

lemma quiet_simps [simp]:
  "quiet (Print s)" "quiet (Diag s e)" "quiet (Input s)" "\<not> quiet (Smtp a b)" "\<not> quiet (OpenFile p)"
  "quiet (Ran argv) \<longleftrightarrow> argv \<noteq> journal_argv"
  by (simp_all add: quiet_def)

lemma is_mounted_quiet: "list_all quiet (snd (is_mounted w device h))"
  by (simp add: is_mounted_def journal_argv_def split: sum.splits)

lemma run_fsck_quiet: "list_all quiet (snd (run_fsck w device h))"
  by (simp add: run_fsck_def journal_argv_def Let_def split: sum.splits)

lemma repair_filesystem_quiet: "list_all quiet (snd (repair_filesystem w device h))"
  using is_mounted_quiet [of w device h] run_fsck_quiet [of w device]
  by (auto simp: repair_filesystem_def journal_argv_def Let_def case_prod_beta split: sum.splits)

lemma ask_repair_quiet: "list_all quiet (snd (snd (ask_repair w part stdin h)))"
  using repair_filesystem_quiet
  by (induction stdin arbitrary: h) (auto simp: Let_def case_prod_beta)

lemma repair_partitions_quiet: "list_all quiet (snd (snd (repair_partitions w parts stdin h)))"
proof (induction parts arbitrary: stdin h)
  case Nil
  then show ?case by simp
next
  case (Cons part parts)
  show ?case
    using is_mounted_quiet [of w part h] ask_repair_quiet [of w part stdin] Cons.IH
    by (auto simp: Let_def case_prod_beta split: option.splits)
qed

lemma get_partitions_quiet: "list_all quiet (snd (get_partitions w disk h))"
  by (simp add: get_partitions_def journal_argv_def split: sum.splits)

lemma get_disks_quiet: "list_all quiet (snd (get_disks w h))"
  by (simp add: get_disks_def journal_argv_def split: sum.splits)

lemma check_smart_status_quiet: "list_all quiet (snd (check_smart_status w disk h))"
  by (simp add: check_smart_status_def journal_argv_def split: sum.splits option.splits)

lemma prompt_repair_quiet: "list_all quiet (snd (snd (prompt_repair w disks stdin h)))"
proof (induction disks arbitrary: stdin h)
  case Nil
  then show ?case by simp
next
  case (Cons disk disks)
  show ?case
    using get_partitions_quiet [of w disk] repair_partitions_quiet [of w _ stdin] Cons.IH
    by (auto simp: Let_def case_prod_beta split: option.splits)
qed

lemma classify_disks_quiet: "list_all quiet (snd (classify_disks w disks h))"
proof (induction disks arbitrary: h)
  case Nil
  then show ?case by simp
next
  case (Cons disk disks)
  show ?case
    using check_smart_status_quiet [of w disk h] Cons.IH
    by (auto simp: Let_def case_prod_beta)
qed

lemma quiet_no_smtp: "list_all quiet es \<Longrightarrow> \<not> list_ex is_smtp es"
  by (induction es) (auto simp: quiet_def)

lemma quiet_no_log_read: "list_all quiet es \<Longrightarrow> filter is_log_read es = []"
  by (induction es) (auto simp: quiet_def)

lemma map_Print_quiet: "list_all quiet (map Print xs)"
  by (induction xs) auto

lemma parse_log_no_smtp: "\<not> list_ex is_smtp (snd (parse_log_for_errors w h))"
  by (simp add: parse_log_for_errors_def read_logs_def split: sum.splits)

lemma parse_log_one_read: "length (filter is_log_read (snd (parse_log_for_errors w h))) = 1"
  by (simp add: parse_log_for_errors_def read_logs_def split: sum.splits)

text \<open>
  The repair depends on the world through the answers to the processes it runs only.
\<close>

lemma agree_append: "agree w1 h1 w2 h2 \<Longrightarrow> agree w1 (h1 @ es) w2 (h2 @ es)"
  by (simp add: agree_def)

lemma agree_exec: "agree w1 h1 w2 h2 \<Longrightarrow> exec w1 h1 argv = exec w2 h2 argv"
  unfolding agree_def by (metis append_Nil2)

lemma is_mounted_agree:
  "agree w1 h1 w2 h2 \<Longrightarrow> is_mounted w1 device h1 = is_mounted w2 device h2"
  by (simp add: is_mounted_def agree_exec [of w1 h1 w2 h2])

lemma run_fsck_agree:
  "agree w1 h1 w2 h2 \<Longrightarrow> run_fsck w1 device h1 = run_fsck w2 device h2"
  using agree_exec [OF agree_append, of w1 h1 w2 h2]
  by (simp add: run_fsck_def)

lemma repair_filesystem_agree:
  assumes "agree w1 h1 w2 h2"
  shows "repair_filesystem w1 device h1 = repair_filesystem w2 device h2"
  using is_mounted_agree [OF assms, of device]
        agree_exec [OF agree_append [OF assms]]
        run_fsck_agree [OF agree_append [OF assms], where device = device]
  by (simp add: repair_filesystem_def Let_def case_prod_beta split: sum.splits)

lemma ask_repair_agree:
  "agree w1 h1 w2 h2 \<Longrightarrow> ask_repair w1 part stdin h1 = ask_repair w2 part stdin h2"
proof (induction stdin arbitrary: h1 h2)
  case Nil
  then show ?case by simp
next
  case (Cons reply stdin)
  show ?case
    using repair_filesystem_agree [OF agree_append [OF Cons.prems], where device = part]
          Cons.IH [OF agree_append [OF Cons.prems]]
    by (simp add: Let_def case_prod_beta)
qed

lemma repair_partitions_agree:
  "agree w1 h1 w2 h2 \<Longrightarrow>
   repair_partitions w1 parts stdin h1 = repair_partitions w2 parts stdin h2"
proof (induction parts arbitrary: stdin h1 h2)
  case Nil
  then show ?case by simp
next
  case (Cons part parts)
  have m: "is_mounted w1 part h1 = is_mounted w2 part h2"
    by (rule is_mounted_agree [OF Cons.prems])
  have a: "ask_repair w1 part stdin (h1 @ es) = ask_repair w2 part stdin (h2 @ es)" for es
    by (rule ask_repair_agree [OF agree_append [OF Cons.prems]])
  have r: "repair_partitions w1 parts stdin' (h1 @ es) = repair_partitions w2 parts stdin' (h2 @ es)"
    for stdin' es
    by (rule Cons.IH [OF agree_append [OF Cons.prems]])
  show ?case
    by (simp add: Let_def case_prod_beta m a r split: option.splits)
qed

lemma get_partitions_agree:
  "agree w1 h1 w2 h2 \<Longrightarrow> get_partitions w1 disk h1 = get_partitions w2 disk h2"
  by (simp add: get_partitions_def agree_exec [of w1 h1 w2 h2])

lemma prompt_repair_agree:
  "agree w1 h1 w2 h2 \<Longrightarrow> prompt_repair w1 disks stdin h1 = prompt_repair w2 disks stdin h2"
proof (induction disks arbitrary: stdin h1 h2)
  case Nil
  then show ?case by simp
next
  case (Cons disk disks)
  have g: "get_partitions w1 disk (h1 @ es) = get_partitions w2 disk (h2 @ es)" for es
    by (rule get_partitions_agree [OF agree_append [OF Cons.prems]])
  have p: "repair_partitions w1 parts stdin (h1 @ es) = repair_partitions w2 parts stdin (h2 @ es)"
    for parts es
    by (rule repair_partitions_agree [OF agree_append [OF Cons.prems]])
  have r: "prompt_repair w1 disks stdin' (h1 @ es) = prompt_repair w2 disks stdin' (h2 @ es)"
    for stdin' es
    by (rule Cons.IH [OF agree_append [OF Cons.prems]])
  show ?case
    using g [of "[Print (nl # ''Disk '' @ disk @ '' has issues. Checking partitions for repair...'')]"]
          p r
    by (simp add: Let_def case_prod_beta split: option.splits)
qed

section \<open>Properties of the alert\<close>

lemma add_items_eq: "add_items body xs = body @ itemized xs"
  by (induction xs arbitrary: body) (auto simp: itemized_def)

lemma alert_body_eq:
  "alert_body failed_disks log_errors =
     ''The following disk issues were detected:'' @ [nl, nl] @
     disks_section failed_disks @ logs_section log_errors"
  by (simp add: alert_body_def add_items_eq disks_section_def logs_section_def Let_def)

text \<open>
  C7. When the alert fires, the first event of the alert is the call of \<open>send_email\<close> with
  the fixed subject and a body made of the fixed heading, then the itemized failed disks
  under their title when there are any, then the itemized log lines under their title when
  there are any; an empty category adds nothing.
\<close>

theorem alert_payload_sections:
  assumes "failed_disks \<noteq> [] \<or> log_errors \<noteq> []"
  shows "\<exists>rest. snd (snd (alert_and_repair w failed_disks log_errors stdin h)) =
           Smtp ''Disk Health Alert on Red Hat System''
             (''The following disk issues were detected:'' @ [nl, nl] @
              (if failed_disks = [] then []
               else ''Failed or failing disks (SMART):'' @ [nl] @ itemized failed_disks @ [nl]) @
              (if log_errors = [] then []
               else ''Disk-related errors from system logs:'' @ [nl] @ itemized log_errors))
           # rest"
  using assms
  by (simp add: alert_and_repair_def send_email_def alert_subject_def alert_body_eq
      disks_section_def logs_section_def Let_def case_prod_beta split: option.splits)

theorem alert_payload_sections_witness:
  "(\<exists>rest. snd (snd (alert_and_repair w_one_failed [''/dev/sdb''] [] [''no''] [])) =
      Smtp ''Disk Health Alert on Red Hat System''
        (''The following disk issues were detected:'' @ [nl, nl] @
         ''Failed or failing disks (SMART):'' @ [nl] @ '' - /dev/sdb'' @ [nl, nl]) # rest) \<and>
   (\<exists>rest. snd (snd (alert_and_repair w_one_failed [] [''ata1: I/O error'', ''sdb offline''] [] [])) =
      Smtp ''Disk Health Alert on Red Hat System''
        (''The following disk issues were detected:'' @ [nl, nl] @
         ''Disk-related errors from system logs:'' @ [nl] @
         '' - ata1: I/O error'' @ [nl] @ '' - sdb offline'' @ [nl]) # rest)"
  using alert_payload_sections [of "[''/dev/sdb'']" "[]" w_one_failed "[''no'']" "[]"]
        alert_payload_sections [of "[]" "[''ata1: I/O error'', ''sdb offline'']" w_one_failed "[]" "[]"]
  by (simp add: itemized_def)

text \<open>
  C8. When the alert fires and the delivery raises, the failure is printed and the repair
  of the failed disks follows. Compared with a run where the delivery succeeds and the
  tools answer alike, the repair has the same events, reads the same answers and ends the
  same way; the two runs differ in the line that reports the delivery only.
\<close>

theorem delivery_failure_keeps_repair:
  assumes "failed_disks \<noteq> [] \<or> log_errors \<noteq> []"
      and "subject = alert_subject" and "body = alert_body failed_disks log_errors"
      and "smtp w_fail h subject body = Some e"
      and "smtp w_ok h subject body = None"
      and "agree w_fail (h @ [Smtp subject body, Diag ''Failed to send email: '' e])
                 w_ok (h @ [Smtp subject body, Print ''Alert email sent.''])"
  shows "\<exists>raised stdin' es.
           prompt_repair w_fail failed_disks stdin
             (h @ [Smtp subject body, Diag ''Failed to send email: '' e]) = (raised, stdin', es) \<and>
           alert_and_repair w_fail failed_disks log_errors stdin h =
             (raised, stdin', [Smtp subject body, Diag ''Failed to send email: '' e] @ es) \<and>
           alert_and_repair w_ok failed_disks log_errors stdin h =
             (raised, stdin', [Smtp subject body, Print ''Alert email sent.''] @ es)"
  using assms(1-5) prompt_repair_agree [OF assms(6), of failed_disks stdin]
  by (simp add: alert_and_repair_def send_email_def Let_def case_prod_beta)

theorem delivery_failure_keeps_repair_witness:
  "\<exists>es. alert_and_repair w_smtp_down [''/dev/sdb''] [] [''no''] [] =
          (None, [],
           [Smtp alert_subject (alert_body [''/dev/sdb''] []),
            Diag ''Failed to send email: '' (Err ''Connection refused'')] @ es) \<and>
        alert_and_repair w_one_failed [''/dev/sdb''] [] [''no''] [] =
          (None, [],
           [Smtp alert_subject (alert_body [''/dev/sdb''] []), Print ''Alert email sent.''] @ es)"
proof -
  have ag: "agree w_smtp_down h1 w_one_failed h2" for h1 h2
    by (simp add: agree_def w_smtp_down_def w_one_failed_def)
  have p: "fst (prompt_repair w_smtp_down [''/dev/sdb''] [''no'']
             [Smtp alert_subject (alert_body [''/dev/sdb''] []),
              Diag ''Failed to send email: '' (Err ''Connection refused'')]) = None"
          "fst (snd (prompt_repair w_smtp_down [''/dev/sdb''] [''no'']
             [Smtp alert_subject (alert_body [''/dev/sdb''] []),
              Diag ''Failed to send email: '' (Err ''Connection refused'')])) = []"
    by (simp_all add: w_smtp_down_def w_one_failed_def run_eval)
  show ?thesis
    using delivery_failure_keeps_repair
      [where failed_disks = "[''/dev/sdb'']" and log_errors = "[]" and w_fail = w_smtp_down
         and w_ok = w_one_failed and h = "[]" and e = "Err ''Connection refused''"
         and stdin = "[''no'']", OF _ refl refl _ _ ag]
          p
    by (auto simp: w_smtp_down_def w_one_failed_def)
qed

section \<open>Properties of the run\<close>

lemma classify_disks_failed:
  "fst (classify_disks w disks h) =
     map fst (filter (\<lambda>(disk, status). lower status \<noteq> ''passed'') (smart_statuses w disks h))"
  by (induction disks arbitrary: h) (simp_all add: Let_def case_prod_beta)

lemma smart_statuses_disks: "map fst (smart_statuses w disks h) = disks"
  by (induction disks arbitrary: h) (simp_all add: Let_def case_prod_beta)

lemma alert_and_repair_smtp:
  "list_ex is_smtp (snd (snd (alert_and_repair w failed_disks log_errors stdin h))) \<longleftrightarrow>
   failed_disks \<noteq> [] \<or> log_errors \<noteq> []"
  using quiet_no_smtp [OF prompt_repair_quiet]
  by (auto simp: alert_and_repair_def send_email_def Let_def case_prod_beta split: option.splits)

lemma alert_and_repair_no_log_read:
  "filter is_log_read (snd (snd (alert_and_repair w failed_disks log_errors stdin h))) = []"
  using quiet_no_log_read [OF prompt_repair_quiet]
  by (auto simp: alert_and_repair_def send_email_def Let_def case_prod_beta split: option.splits)

lemma check_disks_smtp:
  "list_ex is_smtp (snd (snd (check_disks w disks stdin h))) \<longleftrightarrow>
   fst (classify_disks w disks h) \<noteq> [] \<or>
   fst (parse_log_for_errors w (h @ snd (classify_disks w disks h))) \<noteq> []"
  using quiet_no_smtp [OF classify_disks_quiet, of w disks h]
        parse_log_no_smtp [of w "h @ snd (classify_disks w disks h)"]
        quiet_no_smtp [OF map_Print_quiet]
  by (simp add: check_disks_def Let_def case_prod_beta alert_and_repair_smtp list_ex_append)

lemma check_disks_one_read:
  "length (filter is_log_read (snd (snd (check_disks w disks stdin h)))) = 1"
  using quiet_no_log_read [OF classify_disks_quiet, of w disks h]
        parse_log_one_read [of w "h @ snd (classify_disks w disks h)"]
        quiet_no_log_read [OF map_Print_quiet]
  by (simp add: check_disks_def Let_def case_prod_beta alert_and_repair_no_log_read)

text \<open>
  C2. In the part of \<open>main\<close> that follows the enumeration (lines 159 to 188), the alert
  fires exactly when the list of failed disks or the list of anomalies is not empty. The
  failed disks are the disks whose status, in lower case, is not \<open>passed\<close>, in the order of
  the enumeration, each disk having one status; \<open>FAILED\<close>, \<open>UNKNOWN\<close> and \<open>ERROR\<close> are such
  statuses and \<open>PASSED\<close> is not.
\<close>

theorem alert_iff_failed_or_anomaly:
  "(list_ex is_smtp (snd (snd (check_disks w disks stdin h))) \<longleftrightarrow>
      fst (classify_disks w disks h) \<noteq> [] \<or>
      fst (parse_log_for_errors w (h @ snd (classify_disks w disks h))) \<noteq> []) \<and>
   fst (classify_disks w disks h) =
     map fst (filter (\<lambda>(disk, status). lower status \<noteq> ''passed'') (smart_statuses w disks h)) \<and>
   map fst (smart_statuses w disks h) = disks \<and>
   lower ''PASSED'' = ''passed'' \<and> lower ''FAILED'' \<noteq> ''passed'' \<and>
   lower ''UNKNOWN'' \<noteq> ''passed'' \<and> lower ''ERROR'' \<noteq> ''passed''"
proof (intro conjI)
  show "list_ex is_smtp (snd (snd (check_disks w disks stdin h))) \<longleftrightarrow>
      fst (classify_disks w disks h) \<noteq> [] \<or>
      fst (parse_log_for_errors w (h @ snd (classify_disks w disks h))) \<noteq> []"
    by (rule check_disks_smtp)
  show "fst (classify_disks w disks h) =
     map fst (filter (\<lambda>(disk, status). lower status \<noteq> ''passed'') (smart_statuses w disks h))"
    by (rule classify_disks_failed)
  show "map fst (smart_statuses w disks h) = disks"
    by (rule smart_statuses_disks)
qed (simp_all add: lower_def lower_char_def is_upper_def in_range_def)

theorem alert_iff_failed_or_anomaly_witness:
  "fst (classify_disks w_one_failed [''/dev/sda'', ''/dev/sdb''] []) = [''/dev/sdb''] \<and>
   list_ex is_smtp (snd (snd (check_disks w_one_failed [''/dev/sda'', ''/dev/sdb''] [''no''] []))) \<and>
   fst (classify_disks w_one_failed [''/dev/sda''] []) = [] \<and>
   fst (parse_log_for_errors w_one_failed (snd (classify_disks w_one_failed [''/dev/sda''] []))) = [] \<and>
   \<not> list_ex is_smtp (snd (snd (check_disks w_one_failed [''/dev/sda''] [] [])))"
proof -
  have a: "fst (classify_disks w_one_failed [''/dev/sda'', ''/dev/sdb''] []) = [''/dev/sdb'']"
    by (simp add: w_one_failed_def run_eval)
  have b: "fst (classify_disks w_one_failed [''/dev/sda''] []) = []"
    by (simp add: w_one_failed_def run_eval)
  have c: "fst (parse_log_for_errors w_one_failed
                 (snd (classify_disks w_one_failed [''/dev/sda''] []))) = []"
    by (simp add: w_one_failed_def run_eval)
  show ?thesis
    using alert_iff_failed_or_anomaly [of w_one_failed "[''/dev/sda'', ''/dev/sdb'']" "[''no'']" "[]"]
          alert_iff_failed_or_anomaly [of w_one_failed "[''/dev/sda'']" "[]" "[]"]
          a b c
    by simp
qed

text \<open>
  C3, as stated, fails: when no disk is found, \<open>main\<close> prints a line and returns; the log
  is not read and no alert is sent, although its scan would find an anomaly.
\<close>

theorem log_scan_skipped_counterexample:
  "main w_no_disks [] [] =
     (None, [], [Ran [''lsblk'', ''-dn'', ''-o'', ''NAME,TYPE''], Print ''No disks found.'']) \<and>
   fst (parse_log_for_errors w_no_disks [Ran [''lsblk'', ''-dn'', ''-o'', ''NAME,TYPE'']]) =
     [''kernel: ata1: I/O error, dev sdb'']"
  by (simp add: main_def get_disks_def parse_log_for_errors_def read_logs_def w_no_disks_def
      w_io_errors_def w_one_failed_def is_error_line_def Let_def string_eval)

text \<open>
  C3, amended. When the enumeration yields no disk, the run ends without failure after
  printing \<open>No disks found.\<close>: the log is not read and no alert fires. When it yields at
  least one disk, the log is read exactly once, whatever the statuses of the disks, and
  the alert fires exactly when a disk failed or the scan found an anomaly; so anomalies
  alone fire it.
\<close>

theorem log_scan_once_when_disks:
  "(fst (get_disks w h) = [] \<longrightarrow>
      main w stdin h = (None, stdin, snd (get_disks w h) @ [Print ''No disks found.'']) \<and>
      filter is_log_read (snd (snd (main w stdin h))) = [] \<and>
      \<not> list_ex is_smtp (snd (snd (main w stdin h)))) \<and>
   (fst (get_disks w h) \<noteq> [] \<longrightarrow>
      length (filter is_log_read (snd (snd (main w stdin h)))) = 1 \<and>
      (list_ex is_smtp (snd (snd (main w stdin h))) \<longleftrightarrow>
         fst (classify_disks w (fst (get_disks w h)) (h @ snd (get_disks w h))) \<noteq> [] \<or>
         fst (parse_log_for_errors w
               (h @ snd (get_disks w h) @
                snd (classify_disks w (fst (get_disks w h)) (h @ snd (get_disks w h))))) \<noteq> []))"
  using quiet_no_smtp [OF get_disks_quiet, of w h] quiet_no_log_read [OF get_disks_quiet, of w h]
        check_disks_one_read [of w "fst (get_disks w h)" stdin "h @ snd (get_disks w h)"]
        check_disks_smtp [of w "fst (get_disks w h)" stdin "h @ snd (get_disks w h)"]
  by (simp add: main_def Let_def case_prod_beta list_ex_append)

theorem log_scan_once_when_disks_witness:
  "fst (get_disks w_one_failed []) = [''/dev/sda'', ''/dev/sdb''] \<and>
   length (filter is_log_read (snd (snd (main w_one_failed [''no''] [])))) = 1 \<and>
   fst (get_disks w_no_disks []) = [] \<and>
   main w_no_disks [] [] =
     (None, [], [Ran [''lsblk'', ''-dn'', ''-o'', ''NAME,TYPE''], Print ''No disks found.''])"
proof -
  have a: "fst (get_disks w_one_failed []) = [''/dev/sda'', ''/dev/sdb'']"
    by (simp add: w_one_failed_def get_disks_def string_eval)
  have c: "get_disks w_no_disks [] = ([], [Ran [''lsblk'', ''-dn'', ''-o'', ''NAME,TYPE'']])"
    by (simp add: w_no_disks_def w_io_errors_def w_one_failed_def get_disks_def string_eval)
  show ?thesis
    using log_scan_once_when_disks [of w_one_failed "[]" "[''no'']"]
          log_scan_once_when_disks [of w_no_disks "[]" "[]"]
          a c
    by simp
qed

lemma script_exit_status:
  "script w stdin =
     (if \<not> config_present w
      then (1, [Print ''Please create a config.py file based on config_example.py''])
      else (if fst (main w stdin []) = None then 0 else 1, snd (snd (main w stdin []))))"
  by (simp add: script_def split: prod.splits option.splits)

text \<open>
  C9. The configuration is present and the run still exits with status 1: standard input
  is at its end when \<open>prompt_repair\<close> asks its question, \<open>input\<close> raises \<open>EOFError\<close>, and
  nothing catches it.
\<close>

theorem eof_at_prompt_exits_1:
  "config_present w_one_failed \<and>
   script w_one_failed [] =
     (1, [Ran [''lsblk'', ''-dn'', ''-o'', ''NAME,TYPE''],
          Ran [''smartctl'', ''-H'', ''/dev/sda''],
          Print ''/dev/sda: SMART status = PASSED'',
          Ran [''smartctl'', ''-H'', ''/dev/sdb''],
          Print ''/dev/sdb: SMART status = FAILED'',
          Ran [''journalctl'', ''-k'', ''--since'', ''1 hour ago''],
          Smtp ''Disk Health Alert on Red Hat System''
            (''The following disk issues were detected:'' @ [nl, nl] @
             ''Failed or failing disks (SMART):'' @ [nl] @ '' - /dev/sdb'' @ [nl, nl]),
          Print ''Alert email sent.'',
          Print (nl # ''Disk /dev/sdb has issues. Checking partitions for repair...''),
          Ran [''lsblk'', ''-ln'', ''-o'', ''NAME,TYPE'', ''/dev/sdb''],
          Ran [''mountpoint'', ''-q'', ''/dev/sdb1''],
          Print ''Partition /dev/sdb1 is unmounted.'',
          Input ''Do you want to run fsck repair on /dev/sdb1? (yes/no): ''])"
  by (simp add: script_def main_def check_disks_def alert_and_repair_def send_email_def
      alert_body_def alert_subject_def get_disks_def get_partitions_def check_smart_status_def
      parse_log_for_errors_def read_logs_def is_mounted_def repair_question_def
      splitlines_def linebreak_def journal_argv_def
      w_one_failed_def is_error_line_def Let_def string_eval)

end
